theory Spec2Isabelle
  imports Main "HOL-Library.Word" "HOL-Library.Monad_Syntax"
begin

section \<open>Time\<close>

text \<open>
  A \<open>time.Time\<close> is modelled as the number of nanoseconds since the zero \<open>Time\<close>, a
  \<open>time.Duration\<close> as a number of nanoseconds in the range of a signed 64-bit integer.
  \<open>Time.Sub\<close> saturates at the ends of that range, as the library does.
  \<open>time.Now()\<close> is an input of every operation that reads the clock.
\<close>

type_synonym time = int
type_synonym Duration = int

definition zeroTime :: time where
  "zeroTime = 0"

definition maxDuration :: Duration where
  "maxDuration = 2 ^ 63 - 1"

definition minDuration :: Duration where
  "minDuration = - (2 ^ 63)"

definition Sub :: "time \<Rightarrow> time \<Rightarrow> Duration" where
  "Sub t u =
     (let d = t - u
      in if maxDuration < d then maxDuration
         else if d < minDuration then minDuration
         else d)"

definition Second :: Duration where
  "Second = 1000000000"

definition Minute :: Duration where
  "Minute = 60 * Second"

definition Hour :: Duration where
  "Hour = 60 * Minute"

section \<open>The rate limiter\<close>

text \<open>
  \<open>UserLimit\<close> and \<open>RateLimiter\<close> of package \<open>bot\<close>. \<open>Count\<close> is a Go \<open>int\<close>
  (64 bits, \<open>++\<close> wraps, comparison is signed), user identities are \<open>int64\<close>.
  The map holds pointers to entries that only \<open>Allow\<close> and \<open>cleanup\<close> reach
  (\<open>GetUserLimit\<close> hands out a copy), so the entries are stored in the map by value.
  The mutex, the ticker and the \<open>done\<close> channel carry no data of the admission
  decision; every operation below is one critical section.
\<close>

type_synonym int64 = "64 word"

record UserLimit =
  LastRequest :: time
  Count :: "64 word"
  Blocked :: bool
  BlockedAt :: time

record RateLimiter =
  limits :: "int64 \<rightharpoonup> UserLimit"

definition NewRateLimiter :: RateLimiter where
  "NewRateLimiter = \<lparr>limits = Map.empty\<rparr>"

text \<open>
  \<open>Allow\<close> returns early from the blocked check when the block has not expired.
  \<open>Allow_count\<close> is the rest of its body, from the window reset on, run on the entry
  as the blocked check leaves it.
\<close>

definition Allow_count :: "RateLimiter \<Rightarrow> time \<Rightarrow> int64 \<Rightarrow> UserLimit \<Rightarrow> bool \<times> RateLimiter" where
  "Allow_count rl now userID limit =
     (let l1 = (if Minute < Sub now (LastRequest limit)
                then limit\<lparr>Count := 0, LastRequest := now\<rparr>
                else limit);
          l2 = l1\<lparr>Count := Count l1 + 1, LastRequest := now\<rparr>
      in if 20 <s Count l2
         then (False, rl\<lparr>limits := (limits rl)(userID \<mapsto> l2\<lparr>Blocked := True, BlockedAt := now\<rparr>)\<rparr>)
         else (True, rl\<lparr>limits := (limits rl)(userID \<mapsto> l2)\<rparr>))"

definition Allow :: "RateLimiter \<Rightarrow> time \<Rightarrow> int64 \<Rightarrow> bool \<times> RateLimiter" where
  "Allow rl now userID =
     (case limits rl userID of
        None \<Rightarrow>
          (True, rl\<lparr>limits := (limits rl)(userID \<mapsto>
             \<lparr>LastRequest = now, Count = 1, Blocked = False, BlockedAt = zeroTime\<rparr>)\<rparr>)
      | Some limit \<Rightarrow>
          if Blocked limit then
            (if 10 * Minute < Sub now (BlockedAt limit)
             then Allow_count rl now userID (limit\<lparr>Blocked := False, Count := 0\<rparr>)
             else (False, rl))
          else Allow_count rl now userID limit)"

text \<open>
  \<open>cleanup\<close> ranges over the map and deletes the visited key when its entry is older
  than one hour; no iteration reads or writes another key, so the loop is the pointwise
  filter of the map.
\<close>

definition cleanup :: "RateLimiter \<Rightarrow> time \<Rightarrow> RateLimiter" where
  "cleanup rl now =
     rl\<lparr>limits := (\<lambda>userID.
        case limits rl userID of
          None \<Rightarrow> None
        | Some limit \<Rightarrow> if Hour < Sub now (LastRequest limit) then None else Some limit)\<rparr>"

text \<open>A sequence of \<open>Allow\<close> calls for one identity, at the given clock readings.\<close>

fun Allow_calls :: "RateLimiter \<Rightarrow> int64 \<Rightarrow> time list \<Rightarrow> bool list \<times> RateLimiter" where
  "Allow_calls rl userID [] = ([], rl)"
| "Allow_calls rl userID (t # ts) =
     (case Allow rl t userID of
        (b, rl') \<Rightarrow> (case Allow_calls rl' userID ts of (bs, rl'') \<Rightarrow> (b # bs, rl'')))"

section \<open>The middleware package\<close>

subsection \<open>Errors and outcomes of a handler\<close>

text \<open>
  The four sentinel errors of the package; \<open>ErrOther\<close> stands for any other error value
  (an error of the domain, a runtime error). A handler call either returns an \<open>error\<close>
  (\<open>nil\<close> is \<open>None\<close>) or panics with a value, on which the type assertion
  \<open>r.(error)\<close> succeeds (\<open>PanicError\<close>) or fails (\<open>PanicOther\<close>).
\<close>

datatype error = ErrTimeout | ErrRateLimitExceeded | ErrInvalidRequestData | ErrInternalError
  | ErrOther string

datatype panic_value = PanicError error | PanicOther string

datatype result = Return "error option" | Panic panic_value

subsection \<open>Updates and request data\<close>

text \<open>
  The fields of the transport library's \<open>Update\<close>, \<open>Message\<close>, \<open>CallbackQuery\<close>,
  \<open>User\<close> and \<open>Chat\<close> that the package reads. A pointer field is an option, \<open>nil\<close>
  being \<open>None\<close>.
\<close>

record User =
  ID :: int64
  UserName :: string

record Chat =
  Chat_ID :: int64

record Message =
  MessageID :: int
  From :: "User option"
  Chat :: "Chat option"
  Text :: string

record CallbackQuery =
  Callback_From :: "User option"
  Callback_Message :: "Message option"
  Data :: string

record Update =
  Update_Message :: "Message option"
  Update_CallbackQuery :: "CallbackQuery option"

record RequestData =
  Update :: Update
  Message :: "Message option"
  Callback :: "CallbackQuery option"
  UserID :: int64
  ChatID :: int64
  Username :: string


subsection \<open>Handlers and middlewares\<close>

text \<open>
  A handler receives \<open>data interface{}\<close>: a pointer to a \<open>RequestData\<close>
  (as \<open>NewRequestDataFromUpdate\<close> builds it, the address of a fresh struct and so
  never \<open>nil\<close>) or a value of another type, on which the type assertion
  \<open>data.(*RequestData)\<close> fails. A \<open>HandlerFunc\<close> takes the context, the
  data and the state of everything the call can change (the limiter, the audit sink, the
  log), and gives its outcome and the state it leaves.
\<close>

datatype data = RequestData_ptr RequestData | Other_data

type_synonym ('c, 's) HandlerFunc = "'c \<Rightarrow> data \<Rightarrow> 's \<Rightarrow> result \<times> 's"
type_synonym ('c, 's) Middleware = "('c, 's) HandlerFunc \<Rightarrow> ('c, 's) HandlerFunc"

text \<open>
  The loop of \<open>Chain\<close> runs \<open>i\<close> from \<open>len(middlewares) - 1\<close> down to \<open>0\<close>;
  \<open>Chain_loop middlewares (Suc i)\<close> is the iteration at index \<open>i\<close>.
\<close>

fun Chain_loop :: "('c, 's) Middleware list \<Rightarrow> nat \<Rightarrow> ('c, 's) HandlerFunc \<Rightarrow> ('c, 's) HandlerFunc" where
  "Chain_loop middlewares 0 handler = handler"
| "Chain_loop middlewares (Suc i) handler = Chain_loop middlewares i ((middlewares ! i) handler)"

definition Chain :: "('c, 's) HandlerFunc \<Rightarrow> ('c, 's) Middleware list \<Rightarrow> ('c, 's) HandlerFunc" where
  "Chain handler middlewares = Chain_loop middlewares (length middlewares) handler"

text \<open>
  \<open>Recovery\<close>: the deferred function runs \<open>recover()\<close>, logs the panic value and sets
  the named result. The logger is a parameter: what logging the value does to the state.
\<close>

definition Recovery :: "(panic_value \<Rightarrow> 's \<Rightarrow> 's) \<Rightarrow> ('c, 's) Middleware" where
  "Recovery logPanic next = (\<lambda>ctx data s.
     case next ctx data s of
       (Return err, s') \<Rightarrow> (Return err, s')
     | (Panic r, s') \<Rightarrow>
         (let s'' = logPanic r s'
          in case r of
               PanicError panicErr \<Rightarrow> (Return (Some panicErr), s'')
             | PanicOther _ \<Rightarrow> (Return (Some ErrInternalError), s'')))"

text \<open>
  \<open>RateLimit\<close> takes the \<open>RateLimiter\<close> interface: \<open>Allow\<close>, which answers and may
  change the state.
\<close>

definition RateLimit :: "(int64 \<Rightarrow> 's \<Rightarrow> bool \<times> 's) \<Rightarrow> ('c, 's) Middleware" where
  "RateLimit rateLimiter_Allow next = (\<lambda>ctx data s.
     case data of
       Other_data \<Rightarrow> (Return (Some ErrInvalidRequestData), s)
     | RequestData_ptr requestData \<Rightarrow>
         (case rateLimiter_Allow (UserID requestData) s of
            (allowed, s') \<Rightarrow>
              if \<not> allowed then (Return (Some ErrRateLimitExceeded), s')
              else next ctx data s'))"

text \<open>
  \<open>Audit\<close> takes the \<open>AuditLogger\<close> interface and the clock that \<open>time.Now()\<close>
  reads. \<open>LogAction\<close> has no result; the call may change the state and either returns
  (\<open>None\<close>) or panics with a value (\<open>Some\<close>). \<open>Audit\<close> has no \<open>recover\<close>, so a
  panic of the sink leaves \<open>Audit\<close> before \<open>next\<close> is reached. A call that does
  not return has no outcome, for the sink as for a handler.
\<close>

definition Audit :: "(int64 \<Rightarrow> string \<Rightarrow> time \<Rightarrow> 's \<Rightarrow> panic_value option \<times> 's) \<Rightarrow> ('s \<Rightarrow> time) \<Rightarrow> ('c, 's) Middleware" where
  "Audit auditLogger_LogAction time_Now next = (\<lambda>ctx data s.
     case data of
       Other_data \<Rightarrow> (Return (Some ErrInvalidRequestData), s)
     | RequestData_ptr requestData \<Rightarrow>
         (let action =
            (case Message requestData of
               Some m \<Rightarrow> ''message:'' @ Text m
             | None \<Rightarrow>
                 (case Callback requestData of
                    Some q \<Rightarrow> ''callback:'' @ Data q
                  | None \<Rightarrow> ''unknown''))
          in case auditLogger_LogAction (UserID requestData) action (time_Now s) s of
               (Some r, s') \<Rightarrow> (Panic r, s')
             | (None, s') \<Rightarrow> next ctx data s'))"




text \<open>
  \<open>Logger\<close> only writes log entries around the inner call, which it makes with the data
  it was given; it is not embedded here.
\<close>

subsection \<open>Ingress\<close>





section \<open>Fixtures\<close>

text \<open>
  The middlewares and the handler of the package's test of \<open>Chain\<close>: a middleware
  appends a marker to \<open>order\<close>, calls \<open>next\<close> and appends a second marker once
  \<open>next\<close> has returned; the handler appends its marker and returns \<open>nil\<close>.
\<close>

definition marking :: "'m \<Rightarrow> 'm \<Rightarrow> ('c, 'm list) Middleware" where
  "marking before after next = (\<lambda>ctx data order.
     case next ctx data (order @ [before]) of
       (Return err, order') \<Rightarrow> (Return err, order' @ [after])
     | (Panic r, order') \<Rightarrow> (Panic r, order'))"

definition marking_handler :: "'m \<Rightarrow> ('c, 'm list) HandlerFunc" where
  "marking_handler m = (\<lambda>ctx data order. (Return None, order @ [m]))"

text \<open>
  A state for running the middlewares on the limiter of package \<open>bot\<close>: the clock, the
  limiter behind \<open>RateLimiterAdapter\<close>, the actions a recording audit sink has seen (the
  test's \<open>MockAuditLogger\<close>, with identity and timestamp kept), the panic values logged,
  and the number of times the terminal handler ran.
\<close>

record world =
  clock :: time
  rateLimiter :: RateLimiter
  actions :: "(int64 \<times> string \<times> time) list"
  panics :: "panic_value list"
  invocations :: nat

definition RateLimiterAdapter_Allow :: "int64 \<Rightarrow> world \<Rightarrow> bool \<times> world" where
  "RateLimiterAdapter_Allow userID w =
     (case Allow (rateLimiter w) (clock w) userID of
        (allowed, rl) \<Rightarrow> (allowed, w\<lparr>rateLimiter := rl\<rparr>))"

definition MockAuditLogger_LogAction :: "int64 \<Rightarrow> string \<Rightarrow> time \<Rightarrow> world \<Rightarrow> panic_value option \<times> world" where
  "MockAuditLogger_LogAction userID action timestamp w =
     (None, w\<lparr>actions := actions w @ [(userID, action, timestamp)]\<rparr>)"

text \<open>An audit sink that panics instead of recording.\<close>

definition panicking_LogAction :: "int64 \<Rightarrow> string \<Rightarrow> time \<Rightarrow> world \<Rightarrow> panic_value option \<times> world" where
  "panicking_LogAction userID action timestamp w = (Some (PanicOther ''audit sink failed''), w)"




definition log_panic :: "panic_value \<Rightarrow> world \<Rightarrow> world" where
  "log_panic r w = w\<lparr>panics := panics w @ [r]\<rparr>"

definition counting_handler :: "result \<Rightarrow> (unit, world) HandlerFunc" where
  "counting_handler outcome = (\<lambda>ctx data w. (outcome, w\<lparr>invocations := Suc (invocations w)\<rparr>))"

text \<open>Twenty-one clock readings one second apart, and a limiter with a stale entry.\<close>

definition burst :: "time list" where
  "burst = map (\<lambda>s. s * Second)
     [0, 1, 2, 3, 4, 5, 6, 7, 8, 9, 10, 11, 12, 13, 14, 15, 16, 17, 18, 19, 20]"

definition stale :: RateLimiter where
  "stale = \<lparr>limits =
     [7 \<mapsto> \<lparr>LastRequest = 5 * Second, Count = 21, Blocked = True, BlockedAt = 5 * Second\<rparr>,
      8 \<mapsto> \<lparr>LastRequest = 90 * Minute, Count = 3, Blocked = False, BlockedAt = zeroTime\<rparr>]\<rparr>"

definition message_update :: Update where
  "message_update =
     \<lparr>Update_Message = Some \<lparr>MessageID = 789, From = Some \<lparr>ID = 7, UserName = ''testuser''\<rparr>,
        Chat = Some \<lparr>Chat_ID = 456\<rparr>, Text = ''/start''\<rparr>,
      Update_CallbackQuery = None\<rparr>"

definition callback_update :: Update where
  "callback_update =
     \<lparr>Update_Message = None,
      Update_CallbackQuery = Some \<lparr>Callback_From = Some \<lparr>ID = 7, UserName = ''testuser''\<rparr>,
        Callback_Message = Some \<lparr>MessageID = 789, From = None, Chat = Some \<lparr>Chat_ID = 456\<rparr>,
          Text = ''''\<rparr>,
        Data = ''trial''\<rparr>\<rparr>"


definition message_request :: RequestData where
  "message_request =
     \<lparr>Update = message_update, Message = Update_Message message_update, Callback = None,
      UserID = 7, ChatID = 456, Username = ''testuser''\<rparr>"

definition callback_request :: RequestData where
  "callback_request =
     \<lparr>Update = callback_update, Message = None, Callback = Update_CallbackQuery callback_update,
      UserID = 7, ChatID = 456, Username = ''testuser''\<rparr>"

definition blocked_world :: world where
  "blocked_world =
     \<lparr>clock = 20 * Second + 3 * Minute, rateLimiter = snd (Allow_calls NewRateLimiter 7 burst),
      actions = [], panics = [], invocations = 0\<rparr>"

definition idle_world :: world where
  "idle_world =
     \<lparr>clock = 5 * Second, rateLimiter = NewRateLimiter, actions = [], panics = [],
      invocations = 0\<rparr>"

section \<open>Durations and counts\<close>

lemma Sub_less_iff:
  assumes "minDuration \<le> d" "d < maxDuration"
  shows "d < Sub t u \<longleftrightarrow> d < t - u"
  using assms by (auto simp: Sub_def Let_def)

lemma Minute_range: "minDuration \<le> Minute" "Minute < maxDuration"
  by (simp_all add: minDuration_def maxDuration_def Minute_def Second_def)

lemma ten_Minute_range: "minDuration \<le> 10 * Minute" "10 * Minute < maxDuration"
  by (simp_all add: minDuration_def maxDuration_def Minute_def Second_def)

lemma Hour_range: "minDuration \<le> Hour" "Hour < maxDuration"
  by (simp_all add: minDuration_def maxDuration_def Hour_def Minute_def Second_def)

lemma Sub_Minute: "Minute < Sub t u \<longleftrightarrow> Minute < t - u"
  by (rule Sub_less_iff [OF Minute_range])

lemma Sub_ten_Minute: "10 * Minute < Sub t u \<longleftrightarrow> 10 * Minute < t - u"
  by (rule Sub_less_iff [OF ten_Minute_range])

lemma Sub_Hour: "Hour < Sub t u \<longleftrightarrow> Hour < t - u"
  by (rule Sub_less_iff [OF Hour_range])

text \<open>Up to the threshold the signed reading of a count is the count.\<close>

lemma sint_small: "n \<le> 21 \<Longrightarrow> sint (of_nat n :: 64 word) = int n"
proof -
  assume a: "n \<le> 21"
  have "(of_nat n :: 64 word) = word_of_int (int n)" by simp
  then have "sint (of_nat n :: 64 word) = (int n + 2 ^ 63) mod 2 ^ 64 - 2 ^ 63"
    by (simp only: int_word_sint) simp
  moreover have "int n \<le> 21" using a by simp
  ultimately show ?thesis by simp
qed

lemma threshold_small: "n \<le> 21 \<Longrightarrow> (20 <s (of_nat n :: 64 word)) \<longleftrightarrow> 20 < n"
  by (simp add: word_sless_alt sint_small)

lemma threshold_one: "\<not> 20 <s (1 :: 64 word)"
  by (simp add: word_sless_alt)

lemma threshold_Suc:
  assumes "c \<le> 20"
  shows "(20 <s (of_nat c + 1 :: 64 word)) \<longleftrightarrow> c = 20"
proof -
  have "(20 <s (of_nat (Suc c) :: 64 word)) \<longleftrightarrow> 20 < Suc c"
    using assms by (intro threshold_small) simp
  moreover have "(of_nat (Suc c) :: 64 word) = of_nat c + 1"
    by simp
  ultimately show ?thesis
    using assms by (simp only:) auto
qed

section \<open>Properties of the rate limiter\<close>

subsection \<open>One call\<close>

lemma Allow_fresh:
  assumes "limits rl u = None"
  shows "fst (Allow rl now u) = True"
    and "limits (snd (Allow rl now u)) = (limits rl)(u \<mapsto>
           \<lparr>LastRequest = now, Count = 1, Blocked = False, BlockedAt = zeroTime\<rparr>)"
  using assms by (simp_all add: Allow_def)

lemma Allow_in_window:
  assumes "limits rl u = Some \<lparr>LastRequest = l, Count = of_nat c, Blocked = False, BlockedAt = b\<rparr>"
    and "now - l \<le> Minute" "c \<le> 20"
  shows "fst (Allow rl now u) = (c < 20)"
    and "limits (snd (Allow rl now u)) = (limits rl)(u \<mapsto>
              \<lparr>LastRequest = now, Count = of_nat c + 1, Blocked = (c = 20),
               BlockedAt = (if c = 20 then now else b)\<rparr>)"
  using assms threshold_Suc [OF assms(3)]
  by (auto simp: Allow_def Allow_count_def Sub_Minute Let_def)

lemma Allow_blocked_expired:
  assumes "limits rl u = Some l" "Blocked l" "10 * Minute < now - BlockedAt l"
  shows "fst (Allow rl now u) = True"
    and "limits (snd (Allow rl now u)) = (limits rl)(u \<mapsto>
              \<lparr>LastRequest = now, Count = 1, Blocked = False, BlockedAt = BlockedAt l\<rparr>)"
  using assms
  by (cases l; simp add: Allow_def Allow_count_def Sub_ten_Minute Let_def threshold_one)+

lemma Allow_blocked_pending:
  assumes "limits rl u = Some l" "Blocked l" "now - BlockedAt l \<le> 10 * Minute"
  shows "Allow rl now u = (False, rl)"
  using assms by (simp add: Allow_def Sub_ten_Minute)

subsection \<open>Runs of calls\<close>

lemma Allow_calls_Cons:
  "fst (Allow_calls rl u (t # ts)) = fst (Allow rl t u) # fst (Allow_calls (snd (Allow rl t u)) u ts)"
  "snd (Allow_calls rl u (t # ts)) = snd (Allow_calls (snd (Allow rl t u)) u ts)"
  by (simp_all split: prod.splits)

lemma Allow_calls_append:
  "fst (Allow_calls rl u (xs @ ys)) =
     fst (Allow_calls rl u xs) @ fst (Allow_calls (snd (Allow_calls rl u xs)) u ys)"
  "snd (Allow_calls rl u (xs @ ys)) = snd (Allow_calls (snd (Allow_calls rl u xs)) u ys)"
  by (induction xs arbitrary: rl) (simp_all add: Allow_calls_Cons del: Allow_calls.simps(2))

text \<open>
  While the count stays within the threshold and every call falls in one window of a
  minute, each call is admitted and the count goes up by one.
\<close>

lemma Allow_calls_in_window:
  assumes "limits rl u = Some \<lparr>LastRequest = l, Count = of_nat c, Blocked = False, BlockedAt = b\<rparr>"
    and "\<forall>t\<in>set (l # ts). w \<le> t \<and> t \<le> w + Minute"
    and "c + length ts \<le> 20"
  shows "fst (Allow_calls rl u ts) = replicate (length ts) True \<and>
         limits (snd (Allow_calls rl u ts)) = (limits rl)(u \<mapsto>
              \<lparr>LastRequest = last (l # ts), Count = of_nat (c + length ts), Blocked = False,
               BlockedAt = b\<rparr>)"
  using assms
proof (induction ts arbitrary: rl l c)
  case Nil
  then show ?case by (simp add: map_upd_triv)
next
  case (Cons t ts)
  let ?rl = "snd (Allow rl t u)"
  have gap: "t - l \<le> Minute" using Cons.prems(2) by auto
  have c: "c < 20" "c \<le> 20" using Cons.prems(3) by simp_all
  note step = Allow_in_window [OF Cons.prems(1) gap c(2)]
  have entry: "limits ?rl u =
      Some \<lparr>LastRequest = t, Count = of_nat (Suc c), Blocked = False, BlockedAt = b\<rparr>"
    using step(2) c(1) by simp
  have "fst (Allow_calls ?rl u ts) = replicate (length ts) True \<and>
        limits (snd (Allow_calls ?rl u ts)) = (limits ?rl)(u \<mapsto>
              \<lparr>LastRequest = last (t # ts), Count = of_nat (Suc c + length ts), Blocked = False,
               BlockedAt = b\<rparr>)"
    using Cons.prems(2,3) by (intro Cons.IH [OF entry]) auto
  then show ?case
    using step c(1) by (simp add: Allow_calls_Cons del: Allow_calls.simps(2))
qed

lemma list_21_shape:
  assumes "length ts = 21"
  obtains t1 mid t21 where "ts = t1 # mid @ [t21]" "length mid = 19" "ts ! 20 = t21"
proof -
  from assms obtain t1 rest where ts: "ts = t1 # rest" "length rest = 20"
    by (cases ts) auto
  then have "rest \<noteq> []" by auto
  then obtain mid t21 where rest: "rest = mid @ [t21]"
    by (metis rev_exhaust)
  with ts have "length mid = 19" by simp
  moreover from this have "ts ! 20 = t21"
    using ts rest by (simp add: nth_append)
  ultimately show thesis using that ts rest by simp
qed

lemma Allow_calls_21:
  assumes fresh: "limits rl u = None"
    and len: "length ts = 21"
    and win: "\<forall>t\<in>set ts. w \<le> t \<and> t \<le> w + Minute"
  shows "fst (Allow_calls rl u ts) = replicate 20 True @ [False]"
    and "limits (snd (Allow_calls rl u ts)) = (limits rl)(u \<mapsto>
           \<lparr>LastRequest = ts ! 20, Count = 21, Blocked = True, BlockedAt = ts ! 20\<rparr>)"
proof -
  from len obtain t1 mid t21 where
    ts: "ts = t1 # mid @ [t21]" and mid: "length mid = 19" and nth: "ts ! 20 = t21"
    by (rule list_21_shape)
  let ?rl1 = "snd (Allow rl t1 u)"
  let ?rl20 = "snd (Allow_calls ?rl1 u mid)"
  have e1: "limits ?rl1 u =
      Some \<lparr>LastRequest = t1, Count = of_nat 1, Blocked = False, BlockedAt = zeroTime\<rparr>"
    using Allow_fresh(2) [OF fresh] by simp
  have run: "fst (Allow_calls ?rl1 u mid) = replicate (length mid) True \<and>
      limits ?rl20 = (limits ?rl1)(u \<mapsto>
        \<lparr>LastRequest = last (t1 # mid), Count = of_nat (1 + length mid), Blocked = False,
         BlockedAt = zeroTime\<rparr>)"
    using win mid unfolding ts by (intro Allow_calls_in_window [OF e1, where w = w]) auto
  then have e20: "limits ?rl20 u =
      Some \<lparr>LastRequest = last (t1 # mid), Count = of_nat 20, Blocked = False,
            BlockedAt = zeroTime\<rparr>"
    using mid by simp
  have "last (t1 # mid) \<in> set ts"
    unfolding ts using last_in_set [of "t1 # mid"] by auto
  then have gap: "t21 - last (t1 # mid) \<le> Minute"
    using win unfolding ts by fastforce
  note final = Allow_in_window [OF e20 gap order_refl]
  have maps: "limits ?rl20 = (limits rl)(u \<mapsto>
        \<lparr>LastRequest = last (t1 # mid), Count = of_nat 20, Blocked = False,
         BlockedAt = zeroTime\<rparr>)"
    using run mid Allow_fresh(2) [OF fresh, of t1] by simp
  show "fst (Allow_calls rl u ts) = replicate 20 True @ [False]"
    unfolding ts
    using Allow_fresh(1) [OF fresh, of t1] run mid final(1)
    by (simp add: Allow_calls_Cons Allow_calls_append del: Allow_calls.simps(2))
      (simp add: numeral_eq_Suc)
  show "limits (snd (Allow_calls rl u ts)) = (limits rl)(u \<mapsto>
           \<lparr>LastRequest = ts ! 20, Count = 21, Blocked = True, BlockedAt = ts ! 20\<rparr>)"
    unfolding nth unfolding ts
    using final(2) maps
    by (simp add: Allow_calls_Cons Allow_calls_append del: Allow_calls.simps(2))
qed

lemma after_burst:
  "limits (snd (Allow_calls NewRateLimiter 7 burst)) 7 =
     Some \<lparr>LastRequest = 20 * Second, Count = 21, Blocked = True, BlockedAt = 20 * Second\<rparr>"
proof -
  have h1: "limits NewRateLimiter 7 = None" by (simp add: NewRateLimiter_def)
  have h2: "length burst = 21" by (simp add: burst_def)
  have h3: "\<forall>t\<in>set burst. 0 \<le> t \<and> t \<le> 0 + Minute"
    by (simp add: burst_def Minute_def Second_def)
  have "burst ! 20 = 20 * Second" by (simp add: burst_def)
  then show ?thesis
    using Allow_calls_21(2) [OF h1 h2 h3] by simp
qed

subsection \<open>The sweep\<close>

lemma cleanup_expired:
  assumes "limits rl u = Some l" "Hour < now - LastRequest l"
  shows "limits (cleanup rl now) u = None"
  using assms by (simp add: cleanup_def Sub_Hour)

lemma cleanup_without:
  assumes "limits rl u = Some l" "Hour < now - LastRequest l"
  shows "cleanup (rl\<lparr>limits := (limits rl)(u := None)\<rparr>) now = cleanup rl now"
proof -
  have "limits (cleanup (rl\<lparr>limits := (limits rl)(u := None)\<rparr>) now) v = limits (cleanup rl now) v"
    for v
    using assms by (simp add: cleanup_def Sub_Hour)
  then show ?thesis
    by (simp add: cleanup_def fun_eq_iff)
qed

section \<open>Claims about the rate limiter\<close>

text \<open>
  C1. For a fresh identity (no entry in the map), of 21 consecutive \<open>Allow\<close> calls whose
  clock readings all lie in one window of 60 seconds, calls 1 to 20 return \<open>true\<close> and
  call 21 returns \<open>false\<close>, leaving the entry blocked with \<open>BlockedAt\<close> the time of
  call 21. No other entry changes.
\<close>

theorem Allow_admission_threshold:
  assumes "limits rl u = None"
    and "length ts = 21"
    and "\<forall>t\<in>set ts. w \<le> t \<and> t \<le> w + Minute"
  shows "fst (Allow_calls rl u ts) = replicate 20 True @ [False] \<and>
         limits (snd (Allow_calls rl u ts)) = (limits rl)(u \<mapsto>
           \<lparr>LastRequest = ts ! 20, Count = 21, Blocked = True, BlockedAt = ts ! 20\<rparr>)"
  using Allow_calls_21 [OF assms] by simp

theorem Allow_admission_threshold_witness:
  "limits NewRateLimiter 7 = None \<and> length burst = 21 \<and>
   set burst \<subseteq> {0 .. 0 + Minute} \<and>
   fst (Allow_calls NewRateLimiter 7 burst) = replicate 20 True @ [False] \<and>
   limits (snd (Allow_calls NewRateLimiter 7 burst)) 7 =
     Some \<lparr>LastRequest = 20 * Second, Count = 21, Blocked = True, BlockedAt = 20 * Second\<rparr>"
proof -
  have h1: "limits NewRateLimiter 7 = None" by (simp add: NewRateLimiter_def)
  have h2: "length burst = 21" by (simp add: burst_def)
  have h3: "\<forall>t\<in>set burst. 0 \<le> t \<and> t \<le> 0 + Minute"
    by (simp add: burst_def Minute_def Second_def)
  have h4: "set burst \<subseteq> {0 .. 0 + Minute}"
    using h3 by auto
  have "burst ! 20 = 20 * Second" by (simp add: burst_def)
  then show ?thesis
    using h1 h2 h4 Allow_admission_threshold [OF h1 h2 h3] by simp
qed

text \<open>
  C2, as the code has it. For an identity whose entry is blocked (as the rejection at
  call 21 leaves it), an \<open>Allow\<close> call made strictly more than 10 minutes after
  \<open>BlockedAt\<close> returns \<open>true\<close>, clears the blocked flag and restarts the count at 1.
  The comparison is strict: a call exactly 10 minutes after the blocking call is still
  rejected.
\<close>

theorem Allow_block_expiry:
  assumes "limits rl u = Some l" "Blocked l" "10 * Minute < now - BlockedAt l"
  shows "fst (Allow rl now u) = True \<and>
         limits (snd (Allow rl now u)) = (limits rl)(u \<mapsto>
           \<lparr>LastRequest = now, Count = 1, Blocked = False, BlockedAt = BlockedAt l\<rparr>)"
  using Allow_blocked_expired [OF assms] by simp

theorem Allow_block_expiry_witness:
  "fst (Allow (snd (Allow_calls NewRateLimiter 7 burst)) (20 * Second + 10 * Minute + 1) 7) = True \<and>
   limits (snd (Allow (snd (Allow_calls NewRateLimiter 7 burst)) (20 * Second + 10 * Minute + 1) 7)) 7 =
     Some \<lparr>LastRequest = 20 * Second + 10 * Minute + 1, Count = 1, Blocked = False,
           BlockedAt = 20 * Second\<rparr>"
  using Allow_block_expiry [OF after_burst, of "20 * Second + 10 * Minute + 1"] by simp

text \<open>
  The identity blocked by call 21 at second 20 is rejected again by the call made exactly
  10 minutes later.
\<close>

theorem Allow_block_expiry_counterexample:
  "10 * Minute \<le> (20 * Second + 10 * Minute) - 20 * Second \<and>
   limits (snd (Allow_calls NewRateLimiter 7 burst)) 7 =
     Some \<lparr>LastRequest = 20 * Second, Count = 21, Blocked = True, BlockedAt = 20 * Second\<rparr> \<and>
   fst (Allow (snd (Allow_calls NewRateLimiter 7 burst)) (20 * Second + 10 * Minute) 7) = False"
  using after_burst Allow_blocked_pending [OF after_burst, of "20 * Second + 10 * Minute"]
  by simp

text \<open>
  C8. An entry whose \<open>LastRequest\<close> is more than one hour before the sweep is removed
  by the sweep, and the next \<open>Allow\<close> call for that identity does what it does for an
  identity that never had an entry: it returns \<open>true\<close> and starts the count at 1,
  whatever the count and the blocked state were.
\<close>

theorem cleanup_then_fresh:
  assumes "limits rl u = Some l" "Hour < now - LastRequest l"
  shows "limits (cleanup rl now) u = None \<and>
         fst (Allow (cleanup rl now) now' u) = True \<and>
         limits (snd (Allow (cleanup rl now) now' u)) u =
           Some \<lparr>LastRequest = now', Count = 1, Blocked = False, BlockedAt = zeroTime\<rparr> \<and>
         Allow (cleanup rl now) now' u =
           Allow (cleanup (rl\<lparr>limits := (limits rl)(u := None)\<rparr>) now) now' u"
  using cleanup_expired [OF assms] cleanup_without [OF assms]
    Allow_fresh [OF cleanup_expired [OF assms], of now']
  by simp

theorem cleanup_then_fresh_witness:
  "limits (cleanup stale (2 * Hour)) 7 = None \<and>
   limits (cleanup stale (2 * Hour)) 8 = limits stale 8 \<and>
   fst (Allow (cleanup stale (2 * Hour)) (2 * Hour + Second) 7) = True \<and>
   limits (snd (Allow (cleanup stale (2 * Hour)) (2 * Hour + Second) 7)) 7 =
     Some \<lparr>LastRequest = 2 * Hour + Second, Count = 1, Blocked = False, BlockedAt = zeroTime\<rparr>"
proof -
  have h1: "limits stale 7 =
      Some \<lparr>LastRequest = 5 * Second, Count = 21, Blocked = True, BlockedAt = 5 * Second\<rparr>"
    by (simp add: stale_def)
  have h2: "Hour < 2 * Hour - LastRequest \<lparr>LastRequest = 5 * Second, Count = 21, Blocked = True,
      BlockedAt = 5 * Second\<rparr>"
    by (simp add: Hour_def Minute_def Second_def)
  have "limits (cleanup stale (2 * Hour)) 8 = limits stale 8"
    by (simp add: cleanup_def stale_def Sub_def Let_def Hour_def Minute_def Second_def
        maxDuration_def minDuration_def)
  then show ?thesis
    using cleanup_then_fresh [OF h1 h2, of "2 * Hour + Second"] by blast
qed

text \<open>
  C10. For an identity whose entry is blocked and whose block has not expired
  (\<open>now - BlockedAt \<le> 10 minutes\<close>), the \<open>Allow\<close> call is rejected and leaves the
  limiter as it was: the entry keeps \<open>LastRequest\<close>, \<open>Count\<close>, \<open>Blocked\<close> and
  \<open>BlockedAt\<close>, and no other entry is touched.
\<close>

theorem Allow_blocked_frame:
  assumes "limits rl u = Some l" "Blocked l" "now - BlockedAt l \<le> 10 * Minute"
  shows "Allow rl now u = (False, rl)"
  using assms by (rule Allow_blocked_pending)

theorem Allow_blocked_frame_witness:
  "Allow (snd (Allow_calls NewRateLimiter 7 burst)) (20 * Second + 3 * Minute) 7 =
     (False, snd (Allow_calls NewRateLimiter 7 burst))"
  using Allow_blocked_frame [OF after_burst, of "20 * Second + 3 * Minute"]
  by (simp add: Minute_def Second_def)

section \<open>Claims about the middlewares\<close>

lemma Chain_loop_foldr:
  "i \<le> length middlewares \<Longrightarrow>
   Chain_loop middlewares i handler = foldr (\<lambda>m next. m next) (take i middlewares) handler"
proof (induction i arbitrary: handler)
  case 0
  then show ?case by simp
next
  case (Suc i)
  then have "take (Suc i) middlewares = take i middlewares @ [middlewares ! i]"
    by (simp add: take_Suc_conv_app_nth)
  with Suc show ?case by simp
qed

lemma blocked_world_Allow:
  "RateLimiterAdapter_Allow 7 blocked_world = (False, blocked_world)"
  using Allow_blocked_pending [OF after_burst, of "20 * Second + 3 * Minute"]
  by (simp add: RateLimiterAdapter_Allow_def blocked_world_def Minute_def Second_def)

text \<open>
  C3. \<open>Chain(h, m1, ..., mN)\<close> is the handler \<open>m1(m2(...mN(h)))\<close>, so \<open>m1\<close> is
  outermost: with the marker-appending middlewares \<open>[L, R, T, A]\<close> around a terminal
  handler the markers are observed in the order \<open>L_in, R_in, T_in, A_in, terminal,
  A_out, T_out, R_out, L_out\<close>.
\<close>

theorem Chain_nesting:
  "Chain handler middlewares = foldr (\<lambda>m next. m next) middlewares handler \<and>
   Chain handler [m1, m2, m3, m4] = m1 (m2 (m3 (m4 handler))) \<and>
   Chain (marking_handler ''terminal'')
     [marking ''L_in'' ''L_out'', marking ''R_in'' ''R_out'', marking ''T_in'' ''T_out'',
      marking ''A_in'' ''A_out''] ctx data [] =
     (Return None, [''L_in'', ''R_in'', ''T_in'', ''A_in'', ''terminal'',
                    ''A_out'', ''T_out'', ''R_out'', ''L_out''])"
proof -
  have nest: "Chain h ms = foldr (\<lambda>m next. m next) ms h" for h :: "('x, 'y) HandlerFunc" and ms
    by (simp add: Chain_def Chain_loop_foldr)
  show ?thesis
    by (simp add: nest) (simp add: marking_def marking_handler_def)
qed

text \<open>
  C4. Around an inner handler, \<open>Recovery\<close> returns the panic value when the inner call
  panics with a value that is an error, returns \<open>ErrInternalError\<close> when it panics with
  a value that is not an error, and returns the inner result unchanged (\<open>nil\<close> or an
  error) when the inner call returns.
\<close>

theorem Recovery_conversion:
  "(inner ctx data s = (Panic (PanicError e), s') \<longrightarrow>
      Recovery logPanic inner ctx data s = (Return (Some e), logPanic (PanicError e) s')) \<and>
   (inner ctx data s = (Panic (PanicOther v), s') \<longrightarrow>
      Recovery logPanic inner ctx data s =
        (Return (Some ErrInternalError), logPanic (PanicOther v) s')) \<and>
   (inner ctx data s = (Return r, s') \<longrightarrow>
      Recovery logPanic inner ctx data s = (Return r, s'))"
  by (simp add: Recovery_def)

theorem Recovery_conversion_witness:
  "Recovery log_panic (counting_handler (Panic (PanicError (ErrOther ''test error''))))
     () Other_data idle_world =
     (Return (Some (ErrOther ''test error'')),
      idle_world\<lparr>panics := [PanicError (ErrOther ''test error'')], invocations := 1\<rparr>) \<and>
   Recovery log_panic (counting_handler (Panic (PanicOther ''test panic'')))
     () Other_data idle_world =
     (Return (Some ErrInternalError),
      idle_world\<lparr>panics := [PanicOther ''test panic''], invocations := 1\<rparr>) \<and>
   Recovery log_panic (counting_handler (Return None)) () Other_data idle_world =
     (Return None, idle_world\<lparr>invocations := 1\<rparr>) \<and>
   Recovery log_panic (counting_handler (Return (Some ErrTimeout))) () Other_data idle_world =
     (Return (Some ErrTimeout), idle_world\<lparr>invocations := 1\<rparr>)"
  using
    Recovery_conversion [where inner = "counting_handler (Panic (PanicError (ErrOther ''test error'')))"
      and ctx = "()" and data = Other_data and s = idle_world and e = "ErrOther ''test error''"
      and s' = "idle_world\<lparr>invocations := 1\<rparr>" and logPanic = log_panic]
    Recovery_conversion [where inner = "counting_handler (Panic (PanicOther ''test panic''))"
      and ctx = "()" and data = Other_data and s = idle_world and v = "''test panic''"
      and s' = "idle_world\<lparr>invocations := 1\<rparr>" and logPanic = log_panic]
    Recovery_conversion [where inner = "counting_handler (Return None)"
      and ctx = "()" and data = Other_data and s = idle_world and r = None
      and s' = "idle_world\<lparr>invocations := 1\<rparr>" and logPanic = log_panic]
    Recovery_conversion [where inner = "counting_handler (Return (Some ErrTimeout))"
      and ctx = "()" and data = Other_data and s = idle_world and r = "Some ErrTimeout"
      and s' = "idle_world\<lparr>invocations := 1\<rparr>" and logPanic = log_panic]
  by (simp add: counting_handler_def idle_world_def log_panic_def)

text \<open>
  C6. For a request whose identity the rate limiter rejects (\<open>Allow\<close> returns
  \<open>false\<close>), \<open>RateLimit\<close> returns \<open>ErrRateLimitExceeded\<close> and the inner handler is not
  invoked: the result is the same for every inner handler, and the state is the one the
  limiter's \<open>Allow\<close> left.
\<close>

theorem RateLimit_rejection:
  assumes "rateLimiter_Allow (UserID requestData) s = (False, s')"
  shows "RateLimit rateLimiter_Allow inner ctx (RequestData_ptr requestData) s =
           (Return (Some ErrRateLimitExceeded), s')"
  using assms by (simp add: RateLimit_def)

theorem RateLimit_rejection_witness:
  "RateLimiterAdapter_Allow (UserID message_request) blocked_world = (False, blocked_world) \<and>
   RateLimit RateLimiterAdapter_Allow (counting_handler (Return None)) ()
     (RequestData_ptr message_request) blocked_world =
     (Return (Some ErrRateLimitExceeded), blocked_world) \<and>
   invocations blocked_world = 0"
proof -
  have h: "RateLimiterAdapter_Allow (UserID message_request) blocked_world = (False, blocked_world)"
    using blocked_world_Allow by (simp add: message_request_def)
  show ?thesis
    using h RateLimit_rejection [where rateLimiter_Allow = RateLimiterAdapter_Allow
        and requestData = message_request and s = blocked_world and s' = blocked_world
        and ctx = "()" and inner = "counting_handler (Return None)"]
    by (simp add: blocked_world_def)
qed













text \<open>
  C9, as the code has it. For a valid descriptor, \<open>Audit\<close> calls the sink with the
  identity, the action label and the timestamp, the label being \<open>"message:" + text\<close>
  for the Message variant and \<open>"callback:" + payload\<close> for the Callback variant, before
  it delegates. When the sink's \<open>LogAction\<close> returns, \<open>Audit\<close> delegates to the inner
  handler and returns the inner handler's result, whatever the sink did to the state; when
  \<open>LogAction\<close> panics, the panic leaves \<open>Audit\<close> and the inner handler is not called.
\<close>

theorem Audit_records_then_delegates:
  "(Message requestData = Some m \<and> Callback requestData = None \<and>
      auditLogger_LogAction (UserID requestData) (''message:'' @ Text m) (time_Now s) s = (None, s') \<longrightarrow>
      Audit auditLogger_LogAction time_Now inner ctx (RequestData_ptr requestData) s =
        inner ctx (RequestData_ptr requestData) s') \<and>
   (Message requestData = None \<and> Callback requestData = Some q \<and>
      auditLogger_LogAction (UserID requestData) (''callback:'' @ Data q) (time_Now s) s = (None, s') \<longrightarrow>
      Audit auditLogger_LogAction time_Now inner ctx (RequestData_ptr requestData) s =
        inner ctx (RequestData_ptr requestData) s') \<and>
   (Message requestData = Some m \<and> Callback requestData = None \<and>
      auditLogger_LogAction (UserID requestData) (''message:'' @ Text m) (time_Now s) s = (Some r, s') \<longrightarrow>
      Audit auditLogger_LogAction time_Now inner ctx (RequestData_ptr requestData) s = (Panic r, s')) \<and>
   (Message requestData = None \<and> Callback requestData = Some q \<and>
      auditLogger_LogAction (UserID requestData) (''callback:'' @ Data q) (time_Now s) s = (Some r, s') \<longrightarrow>
      Audit auditLogger_LogAction time_Now inner ctx (RequestData_ptr requestData) s = (Panic r, s'))"
  by (simp add: Audit_def)

theorem Audit_records_then_delegates_witness:
  "Audit MockAuditLogger_LogAction clock (counting_handler (Return (Some (ErrOther ''failed''))))
     () (RequestData_ptr message_request) idle_world =
     (Return (Some (ErrOther ''failed'')),
      idle_world\<lparr>actions := [(7, ''message:/start'', 5 * Second)], invocations := 1\<rparr>) \<and>
   Audit MockAuditLogger_LogAction clock (counting_handler (Return None))
     () (RequestData_ptr callback_request) idle_world =
     (Return None,
      idle_world\<lparr>actions := [(7, ''callback:trial'', 5 * Second)], invocations := 1\<rparr>) \<and>
   Audit panicking_LogAction clock (counting_handler (Return None))
     () (RequestData_ptr callback_request) idle_world =
     (Panic (PanicOther ''audit sink failed''), idle_world)"
  using
    Audit_records_then_delegates [where requestData = message_request
      and m = "the (Message message_request)"
      and auditLogger_LogAction = MockAuditLogger_LogAction and time_Now = clock
      and inner = "counting_handler (Return (Some (ErrOther ''failed'')))"
      and ctx = "()" and s = idle_world
      and s' = "idle_world\<lparr>actions := [(7, ''message:/start'', 5 * Second)]\<rparr>"]
    Audit_records_then_delegates [where requestData = callback_request
      and q = "the (Callback callback_request)"
      and auditLogger_LogAction = MockAuditLogger_LogAction and time_Now = clock
      and inner = "counting_handler (Return None)" and ctx = "()" and s = idle_world
      and s' = "idle_world\<lparr>actions := [(7, ''callback:trial'', 5 * Second)]\<rparr>"]
    Audit_records_then_delegates [where requestData = callback_request
      and q = "the (Callback callback_request)"
      and auditLogger_LogAction = panicking_LogAction and time_Now = clock
      and inner = "counting_handler (Return None)" and ctx = "()" and s = idle_world
      and s' = idle_world and r = "PanicOther ''audit sink failed''"]
  by (simp add: message_request_def callback_request_def message_update_def callback_update_def
      MockAuditLogger_LogAction_def panicking_LogAction_def counting_handler_def idle_world_def)

text \<open>
  With a sink that panics, \<open>Audit\<close> does not delegate: the call panics, the terminal
  handler has not run, and the result is not the inner handler's.
\<close>

theorem Audit_records_then_delegates_counterexample:
  "Audit panicking_LogAction clock (counting_handler (Return None))
     () (RequestData_ptr message_request) idle_world =
     (Panic (PanicOther ''audit sink failed''), idle_world) \<and>
   invocations idle_world = 0 \<and>
   counting_handler (Return None) () (RequestData_ptr message_request) idle_world =
     (Return None, idle_world\<lparr>invocations := 1\<rparr>)"
  by (simp add: Audit_def panicking_LogAction_def counting_handler_def idle_world_def
      message_request_def message_update_def)

end
